theory Spec2Isabelle
  imports Main
begin

section \<open>The Fibonacci action server (fib\_server.cpp)\<close>

text \<open>
  The node \<open>FibonacciComputer\<close> registers three handlers with the action middleware
  and runs one worker routine per accepted goal:
  \<^item> \<open>handle_goal\<close> decides whether a new goal is admitted;
  \<^item> \<open>handle_cancel\<close> decides whether a cancellation request is accepted;
  \<^item> \<open>handle_accepted\<close> starts \<open>compute\<close> on a detached thread;
  \<^item> \<open>compute\<close> builds the sequence step by step, publishing feedback and ending
    with at most one terminal call on the goal handle.

  Logging and the one-second sleep of the loop are not modelled: they change neither the
  values computed nor the calls made on the goal handle.
\<close>

subsection \<open>Messages and middleware types\<close>

text \<open>The goal identifier is an array of 16 bytes; the handlers only print it.\<close>

type_synonym GoalUUID = "nat list"

text \<open>
  The goal message of the Fibonacci action carries one field, \<open>order\<close>. It is a 32-bit
  signed integer; the model reads it as an \<open>int\<close>, and every comparison the source makes
  on it (\<open>> 20\<close>, \<open>< 10\<close>, \<open>== 0\<close>, \<open>i < order\<close>) is the mathematical one.
\<close>

record Fibonacci_Goal =
  order :: int

text \<open>What a handler can read from a goal handle: the goal's identifier and the goal.\<close>

record GoalHandle =
  get_goal_id :: GoalUUID
  get_goal :: Fibonacci_Goal

text \<open>The two scoped enumerations of the middleware that the handlers return.\<close>

datatype GoalResponse = GoalResponse_REJECT | ACCEPT_AND_EXECUTE | ACCEPT_AND_DEFER

datatype CancelResponse = CancelResponse_REJECT | CancelResponse_ACCEPT

subsection \<open>The admission handlers\<close>

definition handle_goal :: "GoalUUID \<Rightarrow> Fibonacci_Goal \<Rightarrow> GoalResponse" where
  "handle_goal uuid goal =
     (if order goal > 20 then GoalResponse_REJECT else ACCEPT_AND_EXECUTE)"

definition handle_cancel :: "GoalHandle \<Rightarrow> CancelResponse" where
  "handle_cancel goal_handle =
     (if order (get_goal goal_handle) < 10 then CancelResponse_REJECT
      else CancelResponse_ACCEPT)"

subsection \<open>The worker routine\<close>

text \<open>
  The calls that \<open>compute\<close> makes on the goal handle, each with the sequence of the
  message it passes: \<open>publish_feedback\<close> with the feedback's partial sequence, and the
  three terminal calls \<open>abort\<close>, \<open>canceled\<close> and \<open>succeed\<close> with the result's sequence.
\<close>

datatype call =
    Publish_feedback "int list"
  | Abort "int list"
  | Canceled "int list"
  | Succeed "int list"

fun terminal :: "call \<Rightarrow> bool" where
  "terminal (Publish_feedback s) = False"
| "terminal (Abort s) = True"
| "terminal (Canceled s) = True"
| "terminal (Succeed s) = True"

text \<open>
  The worker asks two questions of its surroundings while it runs: \<open>rclcpp::ok()\<close>
  (is the middleware still operational) and \<open>goal_handle->is_canceling()\<close> (has a
  cancellation been accepted for this goal). Both answers can change between two calls,
  so the environment gives the answer to the \<open>n\<close>-th call of each, counted from 0.
\<close>

record env =
  ok :: "nat \<Rightarrow> bool"
  is_canceling :: "nat \<Rightarrow> bool"

text \<open>
  The worker's state: the vector \<open>sequence\<close> (an alias of the feedback message's
  partial sequence), the calls made on the goal handle so far in order, and how many
  times each of the two questions has been asked.
\<close>

record worker =
  sequence :: "int list"
  calls :: "call list"
  ok_polls :: nat
  cancel_polls :: nat

text \<open>
  Two things the C++ leaves undefined are branches of the model: reading the vector
  outside its bounds, and an \<open>int\<close> addition whose result is not a 32-bit value.
\<close>

datatype fault = OutOfRange | SignedOverflow

text \<open>
  Line 184: \<open>sequence.push_back(sequence[i] + sequence[i - 1])\<close>. The loop index is
  always at least 1, so the model keeps it as a \<open>nat\<close>; index \<open>i - 1\<close> at \<open>i = 0\<close>
  would be outside the vector.
\<close>

definition push_next :: "nat \<Rightarrow> int list \<Rightarrow> fault + int list" where
  "push_next i s =
     (if i = 0 \<or> length s \<le> i then Inl OutOfRange
      else let v = s ! i + s ! (i - 1)
           in if v < - (2 ^ 31) \<or> 2 ^ 31 - 1 < v then Inl SignedOverflow
              else Inr (s @ [v]))"

text \<open>
  How control leaves the loop: by a fault, by the \<open>return\<close> of the cancellation branch
  (the code after the loop is skipped), or by the loop condition becoming false
  (control goes on after the loop).
\<close>

datatype flow = Fault fault | Return worker | Next worker

text \<open>
  Lines 170 to 195. The condition \<open>(i < order) && rclcpp::ok()\<close> asks \<open>ok\<close> only when
  \<open>i < order\<close> holds; \<open>is_canceling\<close> is asked once in every iteration that is entered.
\<close>

function compute_loop :: "env \<Rightarrow> int \<Rightarrow> nat \<Rightarrow> worker \<Rightarrow> flow" where
  "compute_loop e ord i w =
     (if \<not> int i < ord then Next w
      else if \<not> ok e (ok_polls w) then Next (w\<lparr>ok_polls := Suc (ok_polls w)\<rparr>)
      else if is_canceling e (cancel_polls w) then
        Return (w\<lparr>calls := calls w @ [Canceled (sequence w)],
                  ok_polls := Suc (ok_polls w),
                  cancel_polls := Suc (cancel_polls w)\<rparr>)
      else (case push_next i (sequence w) of
              Inl f \<Rightarrow> Fault f
            | Inr s \<Rightarrow>
                compute_loop e ord (Suc i)
                  (w\<lparr>sequence := s,
                     calls := calls w @ [Publish_feedback s],
                     ok_polls := Suc (ok_polls w),
                     cancel_polls := Suc (cancel_polls w)\<rparr>)))"
  by pat_completeness auto
termination
  by (relation "measure (\<lambda>(e, ord, i, w). nat (ord - int i))") auto

declare compute_loop.simps [simp del]

text \<open>The worker when \<open>compute\<close> starts: empty messages, nothing asked, nothing called.\<close>

definition worker_init :: worker where
  "worker_init = \<lparr>sequence = [], calls = [], ok_polls = 0, cancel_polls = 0\<rparr>"

text \<open>
  Lines 131 to 207. Order 0 aborts with the default (empty) result before anything is
  asked. Otherwise the vector is seeded with 0 and 1, the loop runs from \<open>i = 1\<close>, and
  after the loop \<open>succeed\<close> is called only if \<open>rclcpp::ok()\<close> answers true.
\<close>

definition compute :: "env \<Rightarrow> GoalHandle \<Rightarrow> fault + worker" where
  "compute e goal_handle =
     (let ord = order (get_goal goal_handle) in
      if ord = 0 then Inr (worker_init\<lparr>calls := [Abort []]\<rparr>)
      else
        (case compute_loop e ord 1 (worker_init\<lparr>sequence := [0, 1]\<rparr>) of
           Fault f \<Rightarrow> Inl f
         | Return w \<Rightarrow> Inr w
         | Next w \<Rightarrow>
             if ok e (ok_polls w)
             then Inr (w\<lparr>calls := calls w @ [Succeed (sequence w)],
                         ok_polls := Suc (ok_polls w)\<rparr>)
             else Inr (w\<lparr>ok_polls := Suc (ok_polls w)\<rparr>)))"

text \<open>
  What a client of the goal sees of one run: the calls made on the goal handle, in order
  (nothing when the run is undefined).
\<close>

definition observed :: "env \<Rightarrow> GoalHandle \<Rightarrow> call list option" where
  "observed e goal_handle =
     (case compute e goal_handle of Inl f \<Rightarrow> None | Inr w \<Rightarrow> Some (calls w))"

text \<open>The surroundings in which the middleware stays up and no cancellation is pending.\<close>

definition undisturbed :: env where
  "undisturbed = \<lparr>ok = (\<lambda>n. True), is_canceling = (\<lambda>n. False)\<rparr>"

text \<open>
  \<open>rclcpp::ok()\<close> reports whether the context is still valid. A shutdown invalidates it
  for good (\<open>server_main.cpp\<close> initialises it once and never again), so in a run of this
  program an answer that was false is never followed by one that is true.
\<close>

definition stays_down :: "env \<Rightarrow> bool" where
  "stays_down e = (\<forall>m n. m \<le> n \<longrightarrow> ok e n \<longrightarrow> ok e m)"

subsection \<open>The sequence as the specification describes it\<close>

text \<open>
  Section 4.2 of the specification, steps 2 and 3b, in its own words: the sequence starts
  as \<open>[0, 1]\<close>, and step \<open>i\<close> appends \<open>sequence[i] + sequence[i-1]\<close>.
  \<open>sequence_after k\<close> is the sequence once steps 1 to \<open>k\<close> are done.
\<close>

fun sequence_after :: "nat \<Rightarrow> int list" where
  "sequence_after 0 = [0, 1]"
| "sequence_after (Suc k) =
     (let s = sequence_after k in s @ [s ! Suc k + s ! (Suc k - 1)])"

text \<open>
  The worker at the head of the loop with \<open>i = m + 1\<close>, when the \<open>m\<close> iterations before
  all ran to their end: \<open>m\<close> feedback messages published, each question asked \<open>m\<close> times.
\<close>

definition at_step :: "nat \<Rightarrow> worker" where
  "at_step m =
     \<lparr>sequence = sequence_after m,
      calls = map (\<lambda>j. Publish_feedback (sequence_after j)) [1..<Suc m],
      ok_polls = m, cancel_polls = m\<rparr>"

subsection \<open>The middleware's side of a cancellation request\<close>

text \<open>
  Modelled from the spec: the goal registry of sections 4.1 and 4.3, which is code of the
  action middleware and not of \<open>fib_server.cpp\<close>. On a cancellation request it calls
  \<open>handle_cancel\<close> and, on acceptance, sets the cancellation flag of the goal handle; it
  touches nothing else. \<open>request_cancel\<close> takes the flag as it is and returns the
  response together with the flag as it becomes.
\<close>

definition request_cancel :: "GoalHandle \<Rightarrow> bool \<Rightarrow> CancelResponse \<times> bool" where
  "request_cancel goal_handle flag =
     (let r = handle_cancel goal_handle in (r, flag \<or> r = CancelResponse_ACCEPT))"

text \<open>
  Modelled from the spec: the flag that the worker's \<open>n\<close>-th call of \<open>is_canceling\<close>
  reads, when \<open>requested n\<close> says whether a cancellation request came in since the call
  before (for \<open>n = 0\<close>: since the goal was accepted).
\<close>

fun flag_at :: "GoalHandle \<Rightarrow> (nat \<Rightarrow> bool) \<Rightarrow> nat \<Rightarrow> bool" where
  "flag_at goal_handle requested 0 =
     (if requested 0 then snd (request_cancel goal_handle False) else False)"
| "flag_at goal_handle requested (Suc n) =
     (let flag = flag_at goal_handle requested n
      in if requested (Suc n) then snd (request_cancel goal_handle flag) else flag)"

section \<open>Properties of the loop\<close>

lemma length_sequence_after: "length (sequence_after k) = k + 2"
  by (induction k) (simp_all add: Let_def)

text \<open>
  Up to step 20 every sum stays a 32-bit value and every index is inside the vector:
  the step of the source does what the specification's step does.
\<close>

lemma push_next_upto_20:
  "\<forall>k\<in>set [0..<20]. push_next (Suc k) (sequence_after k) = Inr (sequence_after (Suc k))"
  by code_simp

lemma push_next_sequence_after:
  assumes "k < 20"
  shows "push_next (Suc k) (sequence_after k) = Inr (sequence_after (Suc k))"
  using push_next_upto_20 assms by simp

lemma take_sequence_after:
  "j \<le> m \<Longrightarrow> take (j + 2) (sequence_after m) = sequence_after j"
proof (induction m)
  case 0
  then show ?case by simp
next
  case (Suc m)
  show ?case
  proof (cases "j = Suc m")
    case True
    then show ?thesis
      using length_sequence_after [of "Suc m"] by simp
  next
    case False
    with Suc.prems have "j \<le> m" by simp
    with Suc.IH show ?thesis
      by (simp add: Let_def length_sequence_after)
  qed
qed

lemma at_step_sel [simp]:
  "sequence (at_step m) = sequence_after m"
  "calls (at_step m) = map (\<lambda>j. Publish_feedback (sequence_after j)) [1..<Suc m]"
  "ok_polls (at_step m) = m"
  "cancel_polls (at_step m) = m"
  by (simp_all add: at_step_def)

lemma at_step_0: "at_step 0 = worker_init\<lparr>sequence := [0, 1]\<rparr>"
  by (simp add: at_step_def worker_init_def)

lemma at_step_Suc:
  "at_step (Suc m) =
     (at_step m)\<lparr>sequence := sequence_after (Suc m),
       calls := calls (at_step m) @ [Publish_feedback (sequence_after (Suc m))],
       ok_polls := Suc (ok_polls (at_step m)),
       cancel_polls := Suc (cancel_polls (at_step m))\<rparr>"
  by (simp add: at_step_def)

text \<open>One full iteration: the middleware is up, no cancellation is pending.\<close>

lemma loop_step:
  assumes "int (Suc m) < ord" "ord \<le> 20" "ok e m" "\<not> is_canceling e m"
  shows "compute_loop e ord (Suc m) (at_step m) =
         compute_loop e ord (Suc (Suc m)) (at_step (Suc m))"
proof -
  from assms have "m < 20" by linarith
  then have p: "push_next (Suc m) (sequence (at_step m)) = Inr (sequence_after (Suc m))"
    by (simp add: push_next_sequence_after)
  have q: "ok_polls (at_step m) = m" "cancel_polls (at_step m) = m"
    by simp_all
  show ?thesis
    apply (subst compute_loop.simps)
    apply (simp only: p q assms at_step_Suc [symmetric] if_True if_False
        not_True_eq_False not_False_eq_True sum.case)
    apply (simp add: at_step_Suc)
    done
qed

lemma loop_prefix:
  assumes "ord \<le> 20" "\<forall>n<m. int (Suc n) < ord \<and> ok e n \<and> \<not> is_canceling e n"
  shows "compute_loop e ord 1 (at_step 0) = compute_loop e ord (Suc m) (at_step m)"
  using assms(2)
proof (induction m)
  case 0
  show ?case by simp
next
  case (Suc m)
  then have "compute_loop e ord 1 (at_step 0) = compute_loop e ord (Suc m) (at_step m)"
    by simp
  also have "\<dots> = compute_loop e ord (Suc (Suc m)) (at_step (Suc m))"
    using Suc.prems assms(1) by (intro loop_step) simp_all
  finally show ?case .
qed

text \<open>The three ways out of the loop.\<close>

lemma loop_exit_bound: "\<not> int i < ord \<Longrightarrow> compute_loop e ord i w = Next w"
  by (subst compute_loop.simps) simp

lemma loop_exit_down:
  "int i < ord \<Longrightarrow> \<not> ok e (ok_polls w) \<Longrightarrow>
   compute_loop e ord i w = Next (w\<lparr>ok_polls := Suc (ok_polls w)\<rparr>)"
  by (subst compute_loop.simps) simp

lemma loop_exit_cancel:
  "int i < ord \<Longrightarrow> ok e (ok_polls w) \<Longrightarrow> is_canceling e (cancel_polls w) \<Longrightarrow>
   compute_loop e ord i w =
     Return (w\<lparr>calls := calls w @ [Canceled (sequence w)],
               ok_polls := Suc (ok_polls w),
               cancel_polls := Suc (cancel_polls w)\<rparr>)"
  by (subst compute_loop.simps) simp

text \<open>
  For an order of at most 20 the loop never faults, whatever the surroundings answer: it
  runs some \<open>m\<close> full iterations and then leaves in one of the three ways.
\<close>

lemma compute_loop_outcome:
  assumes "ord \<le> 20"
  obtains
    (bound) m where
      "\<forall>n<m. int (Suc n) < ord \<and> ok e n \<and> \<not> is_canceling e n"
      "\<not> int (Suc m) < ord"
      "compute_loop e ord 1 (at_step 0) = Next (at_step m)"
  | (down) m where
      "\<forall>n<m. int (Suc n) < ord \<and> ok e n \<and> \<not> is_canceling e n"
      "int (Suc m) < ord" "\<not> ok e m"
      "compute_loop e ord 1 (at_step 0) = Next ((at_step m)\<lparr>ok_polls := Suc m\<rparr>)"
  | (cancel) m where
      "\<forall>n<m. int (Suc n) < ord \<and> ok e n \<and> \<not> is_canceling e n"
      "int (Suc m) < ord" "ok e m" "is_canceling e m"
      "compute_loop e ord 1 (at_step 0) =
         Return ((at_step m)\<lparr>calls := calls (at_step m) @ [Canceled (sequence_after m)],
                   ok_polls := Suc m, cancel_polls := Suc m\<rparr>)"
proof -
  define P where "P n \<longleftrightarrow> \<not> int (Suc n) < ord \<or> \<not> ok e n \<or> is_canceling e n" for n
  have "P (nat ord)" by (simp add: P_def)
  then obtain m where m: "P m" "\<forall>n<m. \<not> P n"
    using exists_least_iff [of P] by blast
  from m(2) have pre: "\<forall>n<m. int (Suc n) < ord \<and> ok e n \<and> \<not> is_canceling e n"
    by (simp add: P_def)
  with assms have eq: "compute_loop e ord 1 (at_step 0) = compute_loop e ord (Suc m) (at_step m)"
    by (rule loop_prefix)
  show thesis
  proof (cases "int (Suc m) < ord")
    case False
    with eq have "compute_loop e ord 1 (at_step 0) = Next (at_step m)"
      by (simp add: loop_exit_bound)
    with pre False show thesis by (rule bound)
  next
    case lt: True
    show thesis
    proof (cases "ok e m")
      case False
      with lt eq have "compute_loop e ord 1 (at_step 0) = Next ((at_step m)\<lparr>ok_polls := Suc m\<rparr>)"
        by (simp add: loop_exit_down)
      with pre lt False show thesis by (rule down)
    next
      case True
      with m(1) lt have c: "is_canceling e m" by (simp add: P_def)
      with lt True eq have "compute_loop e ord 1 (at_step 0) =
         Return ((at_step m)\<lparr>calls := calls (at_step m) @ [Canceled (sequence_after m)],
                   ok_polls := Suc m, cancel_polls := Suc m\<rparr>)"
        by (simp add: loop_exit_cancel)
      with pre lt True c show thesis by (rule cancel)
    qed
  qed
qed

section \<open>Properties of the worker routine\<close>

text \<open>
  A run to the end: the middleware answers that it is up every time it is asked, and no
  cancellation is seen. The loop makes \<open>order - 1\<close> iterations (none for an order below
  2) and \<open>succeed\<close> is called with the whole sequence.
\<close>

lemma compute_completes:
  assumes "order (get_goal h) \<noteq> 0" "order (get_goal h) \<le> 20"
    and "m = nat (order (get_goal h) - 1)"
    and "\<forall>n\<le>m. ok e n" "\<forall>n<m. \<not> is_canceling e n"
  shows "compute e h =
           Inr ((at_step m)\<lparr>calls := calls (at_step m) @ [Succeed (sequence_after m)],
                  ok_polls := Suc m\<rparr>)"
proof -
  let ?ord = "order (get_goal h)"
  have "\<forall>n<m. int (Suc n) < ?ord \<and> ok e n \<and> \<not> is_canceling e n"
    using assms(3,4,5) by auto
  with assms(2) have "compute_loop e ?ord 1 (at_step 0) = compute_loop e ?ord (Suc m) (at_step m)"
    by (rule loop_prefix)
  moreover have "\<not> int (Suc m) < ?ord"
    using assms(3) by simp
  ultimately have "compute_loop e ?ord 1 (at_step 0) = Next (at_step m)"
    by (simp add: loop_exit_bound)
  moreover have "ok e m" using assms(4) by simp
  ultimately show ?thesis
    using assms(1) by (simp add: compute_def at_step_0 [symmetric])
qed

text \<open>A run in which the cancellation flag is seen set after \<open>k\<close> full iterations.\<close>

lemma compute_canceled:
  assumes "order (get_goal h) \<le> 20" "int (Suc k) < order (get_goal h)"
    and "\<forall>n\<le>k. ok e n" "\<forall>n<k. \<not> is_canceling e n" "is_canceling e k"
  shows "compute e h =
           Inr ((at_step k)\<lparr>calls := calls (at_step k) @ [Canceled (sequence_after k)],
                  ok_polls := Suc k, cancel_polls := Suc k\<rparr>)"
proof -
  let ?ord = "order (get_goal h)"
  have "\<forall>n<k. int (Suc n) < ?ord \<and> ok e n \<and> \<not> is_canceling e n"
    using assms(2,3,4) by auto
  with assms(1) have "compute_loop e ?ord 1 (at_step 0) = compute_loop e ?ord (Suc k) (at_step k)"
    by (rule loop_prefix)
  moreover have "ok e k" using assms(3) by simp
  ultimately have "compute_loop e ?ord 1 (at_step 0) =
      Return ((at_step k)\<lparr>calls := calls (at_step k) @ [Canceled (sequence_after k)],
                  ok_polls := Suc k, cancel_polls := Suc k\<rparr>)"
    using assms(2,5) by (simp add: loop_exit_cancel)
  moreover have "?ord \<noteq> 0" using assms(2) by auto
  ultimately show ?thesis
    by (simp add: compute_def at_step_0 [symmetric])
qed

text \<open>
  Every run of an order of at most 20 ends in one of six ways, whatever the surroundings
  answer. In the last one the middleware answers that it is down at the head of the loop
  and that it is up right after it.
\<close>

lemma compute_outcome:
  assumes "order (get_goal h) \<le> 20"
  obtains
    (aborted)
      "compute e h = Inr (worker_init\<lparr>calls := [Abort []]\<rparr>)"
  | (succeeded) m where
      "\<forall>n\<le>m. ok e n"
      "compute e h =
         Inr ((at_step m)\<lparr>calls := calls (at_step m) @ [Succeed (sequence_after m)],
                ok_polls := Suc m\<rparr>)"
  | (canceled) m where
      "\<forall>n\<le>m. ok e n"
      "compute e h =
         Inr ((at_step m)\<lparr>calls := calls (at_step m) @ [Canceled (sequence_after m)],
                ok_polls := Suc m, cancel_polls := Suc m\<rparr>)"
  | (abandoned_after) m where
      "\<not> ok e m"
      "compute e h = Inr ((at_step m)\<lparr>ok_polls := Suc m\<rparr>)"
  | (abandoned_inside) m where
      "\<not> ok e m" "\<not> ok e (Suc m)"
      "compute e h = Inr ((at_step m)\<lparr>ok_polls := Suc (Suc m)\<rparr>)"
  | (resumed) m where
      "\<not> ok e m" "ok e (Suc m)"
      "compute e h =
         Inr ((at_step m)\<lparr>calls := calls (at_step m) @ [Succeed (sequence_after m)],
                ok_polls := Suc (Suc m)\<rparr>)"
proof (cases "order (get_goal h) = 0")
  case True
  then have "compute e h = Inr (worker_init\<lparr>calls := [Abort []]\<rparr>)"
    by (simp add: compute_def)
  then show thesis by (rule aborted)
next
  case nz: False
  let ?ord = "order (get_goal h)"
  have c: "compute e h =
     (case compute_loop e ?ord 1 (at_step 0) of
        Fault f \<Rightarrow> Inl f
      | Return w \<Rightarrow> Inr w
      | Next w \<Rightarrow>
          if ok e (ok_polls w)
          then Inr (w\<lparr>calls := calls w @ [Succeed (sequence w)], ok_polls := Suc (ok_polls w)\<rparr>)
          else Inr (w\<lparr>ok_polls := Suc (ok_polls w)\<rparr>))"
    using nz by (simp add: compute_def at_step_0)
  from assms show thesis
  proof (cases rule: compute_loop_outcome [where ord = "order (get_goal h)" and e = e])
    case (bound m)
    show thesis
    proof (cases "ok e m")
      case True
      with bound(1) have "\<forall>n\<le>m. ok e n" by (auto simp: le_less)
      moreover from c bound(3) True have "compute e h =
         Inr ((at_step m)\<lparr>calls := calls (at_step m) @ [Succeed (sequence_after m)],
                ok_polls := Suc m\<rparr>)"
        by simp
      ultimately show thesis by (rule succeeded)
    next
      case False
      moreover from c bound(3) False
      have "compute e h = Inr ((at_step m)\<lparr>ok_polls := Suc m\<rparr>)" by simp
      ultimately show thesis by (rule abandoned_after)
    qed
  next
    case (down m)
    show thesis
    proof (cases "ok e (Suc m)")
      case True
      from c down(4) True have "compute e h =
         Inr ((at_step m)\<lparr>calls := calls (at_step m) @ [Succeed (sequence_after m)],
                ok_polls := Suc (Suc m)\<rparr>)"
        by simp
      with down(3) True show thesis by (rule resumed)
    next
      case False
      from c down(4) False
      have "compute e h = Inr ((at_step m)\<lparr>ok_polls := Suc (Suc m)\<rparr>)" by simp
      with down(3) False show thesis by (rule abandoned_inside)
    qed
  next
    case (cancel m)
    from cancel(1,3) have "\<forall>n\<le>m. ok e n" by (auto simp: le_less)
    moreover from c cancel(5) have "compute e h =
         Inr ((at_step m)\<lparr>calls := calls (at_step m) @ [Canceled (sequence_after m)],
                ok_polls := Suc m, cancel_polls := Suc m\<rparr>)"
      by simp
    ultimately show thesis by (rule canceled)
  qed
qed

text \<open>Feedback is not terminal, and what follows the feedback is at most one call.\<close>

lemma feedback_not_terminal:
  "\<forall>c\<in>set (map (\<lambda>j. Publish_feedback (f j)) xs). \<not> terminal c"
  by simp

lemma terminal_last:
  assumes "\<forall>c\<in>set fs. \<not> terminal c" "length ts \<le> 1"
  shows "length (filter terminal (fs @ ts)) \<le> 1
       \<and> (\<forall>j<length (fs @ ts). terminal ((fs @ ts) ! j) \<longrightarrow> Suc j = length (fs @ ts))"
proof
  have "filter terminal fs = []" using assms(1) by (simp add: filter_empty_conv)
  then have "length (filter terminal (fs @ ts)) = length (filter terminal ts)" by simp
  also have "\<dots> \<le> length ts" by (rule length_filter_le)
  finally show "length (filter terminal (fs @ ts)) \<le> 1" using assms(2) by simp
next
  show "\<forall>j<length (fs @ ts). terminal ((fs @ ts) ! j) \<longrightarrow> Suc j = length (fs @ ts)"
  proof (intro allI impI)
    fix j assume j: "j < length (fs @ ts)" and t: "terminal ((fs @ ts) ! j)"
    have "\<not> j < length fs"
    proof
      assume "j < length fs"
      then have "(fs @ ts) ! j \<in> set fs" by (simp add: nth_append)
      with assms(1) t show False by blast
    qed
    with j assms(2) show "Suc j = length (fs @ ts)" by simp
  qed
qed

text \<open>The cancellation flag stays unset while every request is rejected, or none comes in.\<close>

lemma flag_at_rejected:
  "handle_cancel h = CancelResponse_REJECT \<Longrightarrow> \<not> flag_at h requested n"
  by (induction n) (simp_all add: request_cancel_def Let_def)

lemma flag_at_not_requested:
  "\<forall>k\<le>n. \<not> requested k \<Longrightarrow> \<not> flag_at h requested n"
  by (induction n) (simp_all add: Let_def)

text \<open>Once a request has been accepted the flag is set, and it stays set.\<close>

lemma flag_at_accepted:
  assumes "handle_cancel h = CancelResponse_ACCEPT" "requested k" "k \<le> n"
  shows "flag_at h requested n"
  using assms(3)
proof (induction n)
  case 0
  with assms(1,2) show ?case by (simp add: request_cancel_def)
next
  case (Suc n)
  show ?case
  proof (cases "k = Suc n")
    case True
    with assms(1,2) show ?thesis by (simp add: request_cancel_def Let_def)
  next
    case False
    with Suc have "flag_at h requested n" by simp
    then show ?thesis by (simp add: request_cancel_def Let_def)
  qed
qed

text \<open>The worker after a run to the end, and after a run cut short by a cancellation.\<close>

lemma completed_worker:
  "(at_step m)\<lparr>calls := calls (at_step m) @ [Succeed (sequence_after m)], ok_polls := Suc m\<rparr> =
     \<lparr>sequence = sequence_after m,
      calls = map (\<lambda>i. Publish_feedback (sequence_after i)) [1..<Suc m]
              @ [Succeed (sequence_after m)],
      ok_polls = Suc m, cancel_polls = m\<rparr>"
  by (simp add: at_step_def)

lemma canceled_worker:
  "(at_step k)\<lparr>calls := calls (at_step k) @ [Canceled (sequence_after k)],
                ok_polls := Suc k, cancel_polls := Suc k\<rparr> =
     \<lparr>sequence = sequence_after k,
      calls = map (\<lambda>i. Publish_feedback (sequence_after i)) [1..<Suc k]
              @ [Canceled (sequence_after k)],
      ok_polls = Suc k, cancel_polls = Suc k\<rparr>"
  by (simp add: at_step_def)

section \<open>The claims\<close>

lemma feedback_prefixes:
  "map (\<lambda>j. Publish_feedback (sequence_after j)) [1..<Suc m] =
   map (\<lambda>j. Publish_feedback (take (j + 2) (sequence_after m))) [1..<Suc m]"
proof (rule map_cong [OF refl])
  fix j assume "j \<in> set [1..<Suc m]"
  then have "j \<le> m" by auto
  then show "Publish_feedback (sequence_after j) =
             Publish_feedback (take (j + 2) (sequence_after m))"
    by (simp only: take_sequence_after)
qed

lemma completed_order_5:
  "(at_step 4)\<lparr>calls := calls (at_step 4) @ [Succeed (sequence_after 4)], ok_polls := Suc 4\<rparr> =
     \<lparr>sequence = [0, 1, 1, 2, 3, 5],
      calls = [Publish_feedback [0, 1, 1], Publish_feedback [0, 1, 1, 2],
               Publish_feedback [0, 1, 1, 2, 3], Publish_feedback [0, 1, 1, 2, 3, 5],
               Succeed [0, 1, 1, 2, 3, 5]],
      ok_polls = 5, cancel_polls = 4\<rparr>"
  by code_simp

text \<open>
  Claim C1 as it is written does not hold. For order 5 the loop makes four iterations,
  not three: a fourth feedback \<open>[0, 1, 1, 2, 3, 5]\<close> is published and the result has six
  elements, one more than the order.
\<close>
theorem order_5_trace_counterexample:
  "observed undisturbed \<lparr>get_goal_id = [], get_goal = \<lparr>order = 5\<rparr>\<rparr> =
     Some [Publish_feedback [0, 1, 1], Publish_feedback [0, 1, 1, 2],
           Publish_feedback [0, 1, 1, 2, 3], Publish_feedback [0, 1, 1, 2, 3, 5],
           Succeed [0, 1, 1, 2, 3, 5]]
   \<and> observed undisturbed \<lparr>get_goal_id = [], get_goal = \<lparr>order = 5\<rparr>\<rparr> \<noteq>
     Some [Publish_feedback [0, 1, 1], Publish_feedback [0, 1, 1, 2],
           Publish_feedback [0, 1, 1, 2, 3], Succeed [0, 1, 1, 2, 3]]"
  by code_simp

text \<open>
  Claim C1, amended. With the middleware up and no cancellation, a goal of order 5
  publishes the feedback sequences \<open>[0,1,1]\<close>, \<open>[0,1,1,2]\<close>, \<open>[0,1,1,2,3]\<close> and
  \<open>[0,1,1,2,3,5]\<close> in this order and then succeeds with \<open>[0,1,1,2,3,5]\<close>. In general,
  for an order from 1 to 20, the sequence grows by one element per step until its length
  is the order plus one: the feedback of step \<open>j\<close> is the first \<open>j + 2\<close> elements of the
  final sequence.
\<close>
theorem compute_order_5_trace:
  assumes "\<forall>n. ok e n" "\<forall>n. \<not> is_canceling e n"
  shows "(order (get_goal h) = 5 \<longrightarrow>
            observed e h =
              Some [Publish_feedback [0, 1, 1], Publish_feedback [0, 1, 1, 2],
                    Publish_feedback [0, 1, 1, 2, 3], Publish_feedback [0, 1, 1, 2, 3, 5],
                    Succeed [0, 1, 1, 2, 3, 5]])
       \<and> (1 \<le> order (get_goal h) \<and> order (get_goal h) \<le> 20 \<longrightarrow>
            (\<exists>w. compute e h = Inr w
               \<and> length (sequence w) = nat (order (get_goal h)) + 1
               \<and> calls w =
                   map (\<lambda>j. Publish_feedback (take (j + 2) (sequence w)))
                     [1..<nat (order (get_goal h))]
                   @ [Succeed (sequence w)]))"
proof (intro conjI impI)
  assume o5: "order (get_goal h) = 5"
  have "compute e h =
      Inr ((at_step 4)\<lparr>calls := calls (at_step 4) @ [Succeed (sequence_after 4)],
                  ok_polls := Suc 4\<rparr>)"
    using assms o5 by (intro compute_completes) simp_all
  then show "observed e h =
              Some [Publish_feedback [0, 1, 1], Publish_feedback [0, 1, 1, 2],
                    Publish_feedback [0, 1, 1, 2, 3], Publish_feedback [0, 1, 1, 2, 3, 5],
                    Succeed [0, 1, 1, 2, 3, 5]]"
    by (simp only: completed_order_5 observed_def sum.case worker.simps)
next
  let ?ord = "order (get_goal h)"
  assume r: "1 \<le> ?ord \<and> ?ord \<le> 20"
  define m where "m = nat (?ord - 1)"
  have sm: "Suc m = nat ?ord" using r unfolding m_def by linarith
  have "compute e h =
      Inr ((at_step m)\<lparr>calls := calls (at_step m) @ [Succeed (sequence_after m)],
                  ok_polls := Suc m\<rparr>)"
    using assms r by (intro compute_completes) (simp_all add: m_def)
  then show "\<exists>w. compute e h = Inr w
               \<and> length (sequence w) = nat ?ord + 1
               \<and> calls w =
                   map (\<lambda>j. Publish_feedback (take (j + 2) (sequence w))) [1..<nat ?ord]
                   @ [Succeed (sequence w)]"
    using feedback_prefixes [of m]
    by (simp add: length_sequence_after sm del: upt_Suc)
qed

theorem compute_order_5_trace_witness:
  "(\<forall>n. ok undisturbed n) \<and> (\<forall>n. \<not> is_canceling undisturbed n)
   \<and> order (get_goal \<lparr>get_goal_id = [], get_goal = \<lparr>order = 5\<rparr>\<rparr>) = 5
   \<and> observed undisturbed \<lparr>get_goal_id = [], get_goal = \<lparr>order = 5\<rparr>\<rparr> =
              Some [Publish_feedback [0, 1, 1], Publish_feedback [0, 1, 1, 2],
                    Publish_feedback [0, 1, 1, 2, 3], Publish_feedback [0, 1, 1, 2, 3, 5],
                    Succeed [0, 1, 1, 2, 3, 5]]
   \<and> (\<exists>w. compute undisturbed \<lparr>get_goal_id = [], get_goal = \<lparr>order = 5\<rparr>\<rparr> = Inr w
         \<and> length (sequence w) = 6)"
proof -
  have live: "\<forall>n. ok undisturbed n" and quiet: "\<forall>n. \<not> is_canceling undisturbed n"
    by (simp_all add: undisturbed_def)
  from compute_order_5_trace [OF live quiet, of "\<lparr>get_goal_id = [], get_goal = \<lparr>order = 5\<rparr>\<rparr>"]
  show ?thesis
    using live quiet by auto
qed

text \<open>
  Claim C2. For an order from 2 (to 20, the orders that are admitted), with the
  middleware up and no cancellation, the loop runs the steps \<open>i = 1, \<dots>, order - 1\<close>.
  Step \<open>i\<close> appends \<open>sequence[i] + sequence[i-1]\<close> and publishes one feedback with the
  sequence as it then is, so the result has \<open>order - 1\<close> elements more than the seed.
\<close>
theorem compute_loop_steps:
  assumes "2 \<le> order (get_goal h)" "order (get_goal h) \<le> 20"
    and "\<forall>n. ok e n" "\<forall>n. \<not> is_canceling e n"
  shows "\<exists>w. compute e h = Inr w
           \<and> calls w =
               map (\<lambda>i. Publish_feedback (sequence_after i)) [1..<nat (order (get_goal h))]
               @ [Succeed (sequence_after (nat (order (get_goal h)) - 1))]
           \<and> sequence w = sequence_after (nat (order (get_goal h)) - 1)
           \<and> length (sequence w) = 2 + (nat (order (get_goal h)) - 1)
           \<and> cancel_polls w = nat (order (get_goal h)) - 1"
proof -
  let ?ord = "order (get_goal h)"
  define m where "m = nat (?ord - 1)"
  have sm: "Suc m = nat ?ord" "nat ?ord - Suc 0 = m"
    using assms(1) unfolding m_def by linarith+
  have "compute e h =
      Inr ((at_step m)\<lparr>calls := calls (at_step m) @ [Succeed (sequence_after m)],
                  ok_polls := Suc m\<rparr>)"
    using assms by (intro compute_completes) (simp_all add: m_def)
  then show ?thesis
    by (simp add: length_sequence_after sm del: upt_Suc)
qed

theorem compute_loop_steps_witness:
  "(2::int) \<le> order (get_goal \<lparr>get_goal_id = [], get_goal = \<lparr>order = 3\<rparr>\<rparr>)
   \<and> order (get_goal \<lparr>get_goal_id = [], get_goal = \<lparr>order = 3\<rparr>\<rparr>) \<le> 20
   \<and> (\<forall>n. ok undisturbed n) \<and> (\<forall>n. \<not> is_canceling undisturbed n)
   \<and> (\<exists>w. compute undisturbed \<lparr>get_goal_id = [], get_goal = \<lparr>order = 3\<rparr>\<rparr> = Inr w
         \<and> calls w = [Publish_feedback [0, 1, 1], Publish_feedback [0, 1, 1, 2],
                      Succeed [0, 1, 1, 2]]
         \<and> sequence w = [0, 1, 1, 2]
         \<and> cancel_polls w = 2)"
proof -
  have live: "\<forall>n. ok undisturbed n" and quiet: "\<forall>n. \<not> is_canceling undisturbed n"
    by (simp_all add: undisturbed_def)
  have s: "sequence_after 2 = [0, 1, 1, 2]" "sequence_after 1 = [0, 1, 1]" by code_simp+
  have u: "[Suc 0..<3] = [1, 2]" by code_simp
  from compute_loop_steps [of "\<lparr>get_goal_id = [], get_goal = \<lparr>order = 3\<rparr>\<rparr>" undisturbed]
  show ?thesis
    using live quiet by (auto simp: s u)
qed

text \<open>
  Claim C3. \<open>handle_goal\<close> returns REJECT exactly when the order is above 20. For every
  order from 0 to 20 it returns ACCEPT\_AND\_EXECUTE, never the deferred acceptance, so
  execution starts at once. The answer is a function of the goal alone: the identifier
  does not change it, and the handler has no state to change.
\<close>
theorem handle_goal_policy:
  "(handle_goal uuid goal = GoalResponse_REJECT) = (order goal > 20)
   \<and> (0 \<le> order goal \<and> order goal \<le> 20 \<longrightarrow> handle_goal uuid goal = ACCEPT_AND_EXECUTE)
   \<and> handle_goal uuid goal \<noteq> ACCEPT_AND_DEFER
   \<and> handle_goal uuid' goal = handle_goal uuid goal"
  by (simp add: handle_goal_def)

theorem handle_goal_policy_witness:
  "(0::int) \<le> 7 \<and> (7::int) \<le> 20
   \<and> handle_goal [1, 2] \<lparr>order = 7\<rparr> = ACCEPT_AND_EXECUTE
   \<and> handle_goal [1, 2] \<lparr>order = 21\<rparr> = GoalResponse_REJECT"
  using handle_goal_policy [of "[1, 2]" "\<lparr>order = 7\<rparr>" "[]"]
    handle_goal_policy [of "[1, 2]" "\<lparr>order = 21\<rparr>" "[]"]
  by simp

text \<open>
  Claim C4. For an order from 10 (to 20), if the cancellation flag is first seen set
  at the head of the iteration that follows \<open>k\<close> full steps, the worker calls \<open>canceled\<close>
  with the sequence built so far, of length \<open>k + 2\<close>. That call is the last one: \<open>k\<close>
  feedback messages were published before it, and no step is made after it.
\<close>
theorem compute_cancel_after_k_steps:
  assumes "10 \<le> order (get_goal h)" "order (get_goal h) \<le> 20"
    and "int (Suc k) < order (get_goal h)"
    and "\<forall>n\<le>k. ok e n" "\<forall>n<k. \<not> is_canceling e n" "is_canceling e k"
  shows "\<exists>w. compute e h = Inr w
           \<and> calls w =
               map (\<lambda>i. Publish_feedback (sequence_after i)) [1..<Suc k]
               @ [Canceled (sequence_after k)]
           \<and> length (sequence_after k) = k + 2
           \<and> sequence w = sequence_after k
           \<and> cancel_polls w = Suc k"
proof -
  have "compute e h =
           Inr ((at_step k)\<lparr>calls := calls (at_step k) @ [Canceled (sequence_after k)],
                  ok_polls := Suc k, cancel_polls := Suc k\<rparr>)"
    using assms(2-) by (rule compute_canceled)
  then show ?thesis
    by (simp add: length_sequence_after del: upt_Suc)
qed

theorem compute_cancel_after_k_steps_witness:
  "(10::int) \<le> order (get_goal \<lparr>get_goal_id = [], get_goal = \<lparr>order = 12\<rparr>\<rparr>)
   \<and> order (get_goal \<lparr>get_goal_id = [], get_goal = \<lparr>order = 12\<rparr>\<rparr>) \<le> 20
   \<and> int (Suc 2) < order (get_goal \<lparr>get_goal_id = [], get_goal = \<lparr>order = 12\<rparr>\<rparr>)
   \<and> ok (undisturbed\<lparr>is_canceling := (\<lambda>n. 2 \<le> n)\<rparr>) 0
   \<and> ok (undisturbed\<lparr>is_canceling := (\<lambda>n. 2 \<le> n)\<rparr>) 1
   \<and> ok (undisturbed\<lparr>is_canceling := (\<lambda>n. 2 \<le> n)\<rparr>) 2
   \<and> \<not> is_canceling (undisturbed\<lparr>is_canceling := (\<lambda>n. 2 \<le> n)\<rparr>) 0
   \<and> \<not> is_canceling (undisturbed\<lparr>is_canceling := (\<lambda>n. 2 \<le> n)\<rparr>) 1
   \<and> is_canceling (undisturbed\<lparr>is_canceling := (\<lambda>n. 2 \<le> n)\<rparr>) 2
   \<and> (\<exists>w. compute (undisturbed\<lparr>is_canceling := (\<lambda>n. 2 \<le> n)\<rparr>)
             \<lparr>get_goal_id = [], get_goal = \<lparr>order = 12\<rparr>\<rparr> = Inr w
         \<and> calls w = [Publish_feedback [0, 1, 1], Publish_feedback [0, 1, 1, 2],
                      Canceled [0, 1, 1, 2]]
         \<and> length (sequence w) = 4)"
proof -
  let ?e = "undisturbed\<lparr>is_canceling := (\<lambda>n. 2 \<le> n)\<rparr>"
  have live: "\<forall>n\<le>2. ok ?e n" and quiet: "\<forall>n<2. \<not> is_canceling ?e n"
    and c: "is_canceling ?e 2"
    by (simp_all add: undisturbed_def)
  have s: "sequence_after 2 = [0, 1, 1, 2]" "sequence_after 1 = [0, 1, 1]" by code_simp+
  have u: "[Suc 0..<3] = [1, 2]" by code_simp
  from compute_cancel_after_k_steps [of "\<lparr>get_goal_id = [], get_goal = \<lparr>order = 12\<rparr>\<rparr>" 2 ?e]
  show ?thesis
    using live quiet c by (auto simp: s u simp del: upt_Suc)
qed

text \<open>
  Claim C5. \<open>handle_cancel\<close> returns REJECT exactly when the order is below 10. Then a
  request leaves the cancellation flag as it was, the flag is never set, and the worker
  runs to its natural end whatever requests come in: for order 0 it aborts, and otherwise,
  with the middleware up, it makes all its steps, publishes one feedback per step and
  calls \<open>succeed\<close> with the whole sequence. For an order from 10 a request is accepted
  and sets the flag and nothing else; the worker is not stopped by it. When the first
  request comes in before the worker looks at the flag for the \<open>k\<close>-th time (counted from
  0), the worker has made its \<open>k\<close> steps and published its \<open>k\<close> feedback messages, and it
  is its own call of \<open>canceled\<close> at that look that ends the run; when the request comes
  in after the worker last looked at the flag, the run goes to \<open>succeed\<close> with the whole
  sequence.
\<close>
theorem handle_cancel_policy:
  "(handle_cancel h = CancelResponse_REJECT) = (order (get_goal h) < 10)
   \<and> (order (get_goal h) < 10 \<longrightarrow>
         request_cancel h flag = (CancelResponse_REJECT, flag)
       \<and> (\<forall>n. \<not> flag_at h requested n)
       \<and> compute (e\<lparr>is_canceling := flag_at h requested\<rparr>) h =
           compute (e\<lparr>is_canceling := (\<lambda>n. False)\<rparr>) h
       \<and> (order (get_goal h) = 0 \<longrightarrow>
            compute (e\<lparr>is_canceling := flag_at h requested\<rparr>) h =
              Inr \<lparr>sequence = [], calls = [Abort []], ok_polls = 0, cancel_polls = 0\<rparr>)
       \<and> (order (get_goal h) \<noteq> 0 \<and> (\<forall>n. ok e n) \<longrightarrow>
            compute (e\<lparr>is_canceling := flag_at h requested\<rparr>) h =
              Inr \<lparr>sequence = sequence_after (nat (order (get_goal h) - 1)),
                   calls = map (\<lambda>i. Publish_feedback (sequence_after i))
                             [1..<Suc (nat (order (get_goal h) - 1))]
                           @ [Succeed (sequence_after (nat (order (get_goal h) - 1)))],
                   ok_polls = Suc (nat (order (get_goal h) - 1)),
                   cancel_polls = nat (order (get_goal h) - 1)\<rparr>))
   \<and> (10 \<le> order (get_goal h) \<longrightarrow>
         request_cancel h flag = (CancelResponse_ACCEPT, True)
       \<and> (order (get_goal h) \<le> 20 \<and> (\<forall>n. ok e n)
            \<and> (\<forall>n<k. \<not> requested n) \<and> requested k \<and> int (Suc k) < order (get_goal h) \<longrightarrow>
            compute (e\<lparr>is_canceling := flag_at h requested\<rparr>) h =
              Inr \<lparr>sequence = sequence_after k,
                   calls = map (\<lambda>i. Publish_feedback (sequence_after i)) [1..<Suc k]
                           @ [Canceled (sequence_after k)],
                   ok_polls = Suc k, cancel_polls = Suc k\<rparr>)
       \<and> (order (get_goal h) \<le> 20 \<and> (\<forall>n. ok e n)
            \<and> (\<forall>n<nat (order (get_goal h) - 1). \<not> requested n) \<longrightarrow>
            compute (e\<lparr>is_canceling := flag_at h requested\<rparr>) h =
              Inr \<lparr>sequence = sequence_after (nat (order (get_goal h) - 1)),
                   calls = map (\<lambda>i. Publish_feedback (sequence_after i))
                             [1..<Suc (nat (order (get_goal h) - 1))]
                           @ [Succeed (sequence_after (nat (order (get_goal h) - 1)))],
                   ok_polls = Suc (nat (order (get_goal h) - 1)),
                   cancel_polls = nat (order (get_goal h) - 1)\<rparr>))"
proof -
  let ?ord = "order (get_goal h)"
  let ?e = "e\<lparr>is_canceling := flag_at h requested\<rparr>"
  let ?m = "nat (?ord - 1)"
  have decision: "(handle_cancel h = CancelResponse_REJECT) = (?ord < 10)"
    by (simp add: handle_cancel_def)
  have rejected: "request_cancel h flag = (CancelResponse_REJECT, flag)"
      "\<forall>n. \<not> flag_at h requested n"
      "compute ?e h = compute (e\<lparr>is_canceling := (\<lambda>n. False)\<rparr>) h"
    if lt: "?ord < 10"
  proof -
    from lt have r: "handle_cancel h = CancelResponse_REJECT" by (simp add: handle_cancel_def)
    then show "request_cancel h flag = (CancelResponse_REJECT, flag)"
      by (simp add: request_cancel_def)
    from r show "\<forall>n. \<not> flag_at h requested n" by (simp add: flag_at_rejected)
    then have "flag_at h requested = (\<lambda>n. False)" by (intro ext) simp
    then show "compute ?e h = compute (e\<lparr>is_canceling := (\<lambda>n. False)\<rparr>) h" by simp
  qed
  have aborted: "compute ?e h =
      Inr \<lparr>sequence = [], calls = [Abort []], ok_polls = 0, cancel_polls = 0\<rparr>"
    if "?ord = 0"
    using that by (simp add: compute_def worker_init_def)
  have completed: "compute ?e h =
      Inr \<lparr>sequence = sequence_after ?m,
           calls = map (\<lambda>i. Publish_feedback (sequence_after i)) [1..<Suc ?m]
                   @ [Succeed (sequence_after ?m)],
           ok_polls = Suc ?m, cancel_polls = ?m\<rparr>"
    if nz: "?ord \<noteq> 0" and le: "?ord \<le> 20" and live: "\<forall>n. ok e n"
      and quiet: "\<forall>n<?m. \<not> flag_at h requested n"
  proof -
    have "compute ?e h =
        Inr ((at_step ?m)\<lparr>calls := calls (at_step ?m) @ [Succeed (sequence_after ?m)],
               ok_polls := Suc ?m\<rparr>)"
      using nz le live quiet by (intro compute_completes) simp_all
    then show ?thesis by (simp only: completed_worker)
  qed
  have stopped_by_itself: "compute ?e h =
      Inr \<lparr>sequence = sequence_after k,
           calls = map (\<lambda>i. Publish_feedback (sequence_after i)) [1..<Suc k]
                   @ [Canceled (sequence_after k)],
           ok_polls = Suc k, cancel_polls = Suc k\<rparr>"
    if ge: "10 \<le> ?ord" and le: "?ord \<le> 20" and live: "\<forall>n. ok e n"
      and before: "\<forall>n<k. \<not> requested n" and at: "requested k" and lt: "int (Suc k) < ?ord"
  proof -
    from ge have a: "handle_cancel h = CancelResponse_ACCEPT" by (simp add: handle_cancel_def)
    have "\<forall>n<k. \<not> is_canceling ?e n"
      using before by (auto intro!: flag_at_not_requested)
    moreover have "is_canceling ?e k"
      using flag_at_accepted [of h requested k k] a at by simp
    moreover have "\<forall>n\<le>k. ok ?e n" using live by simp
    ultimately have "compute ?e h =
        Inr ((at_step k)\<lparr>calls := calls (at_step k) @ [Canceled (sequence_after k)],
               ok_polls := Suc k, cancel_polls := Suc k\<rparr>)"
      using le lt by (intro compute_canceled) simp_all
    then show ?thesis by (simp only: canceled_worker)
  qed
  have accepted: "request_cancel h flag = (CancelResponse_ACCEPT, True)" if "10 \<le> ?ord"
    using that by (simp add: request_cancel_def handle_cancel_def)
  have late: "\<forall>n<?m. \<not> flag_at h requested n" if "\<forall>n<?m. \<not> requested n"
    using that by (auto intro!: flag_at_not_requested)
  show ?thesis
  proof (intro conjI impI)
    show "(handle_cancel h = CancelResponse_REJECT) = (?ord < 10)"
      by (rule decision)
  next
    assume "?ord < 10"
    then show "request_cancel h flag = (CancelResponse_REJECT, flag)"
      by (rule rejected(1))
  next
    assume "?ord < 10"
    then show "\<forall>n. \<not> flag_at h requested n"
      by (rule rejected(2))
  next
    assume "?ord < 10"
    then show "compute ?e h = compute (e\<lparr>is_canceling := (\<lambda>n. False)\<rparr>) h"
      by (rule rejected(3))
  next
    assume "?ord = 0"
    then show "compute ?e h =
        Inr \<lparr>sequence = [], calls = [Abort []], ok_polls = 0, cancel_polls = 0\<rparr>"
      by (rule aborted)
  next
    assume lt: "?ord < 10" and r: "?ord \<noteq> 0 \<and> (\<forall>n. ok e n)"
    from lt have "\<forall>n<?m. \<not> flag_at h requested n"
      using rejected(2) by simp
    with lt r show "compute ?e h =
        Inr \<lparr>sequence = sequence_after ?m,
             calls = map (\<lambda>i. Publish_feedback (sequence_after i)) [1..<Suc ?m]
                     @ [Succeed (sequence_after ?m)],
             ok_polls = Suc ?m, cancel_polls = ?m\<rparr>"
      by (intro completed) simp_all
  next
    assume "10 \<le> ?ord"
    then show "request_cancel h flag = (CancelResponse_ACCEPT, True)"
      by (rule accepted)
  next
    assume ge: "10 \<le> ?ord"
      and r: "?ord \<le> 20 \<and> (\<forall>n. ok e n)
                \<and> (\<forall>n<k. \<not> requested n) \<and> requested k \<and> int (Suc k) < ?ord"
    then show "compute ?e h =
        Inr \<lparr>sequence = sequence_after k,
             calls = map (\<lambda>i. Publish_feedback (sequence_after i)) [1..<Suc k]
                     @ [Canceled (sequence_after k)],
             ok_polls = Suc k, cancel_polls = Suc k\<rparr>"
      by (intro stopped_by_itself) simp_all
  next
    assume ge: "10 \<le> ?ord"
      and r: "?ord \<le> 20 \<and> (\<forall>n. ok e n) \<and> (\<forall>n<?m. \<not> requested n)"
    then have "\<forall>n<?m. \<not> flag_at h requested n"
      by (intro late) simp
    with ge r show "compute ?e h =
        Inr \<lparr>sequence = sequence_after ?m,
             calls = map (\<lambda>i. Publish_feedback (sequence_after i)) [1..<Suc ?m]
                     @ [Succeed (sequence_after ?m)],
             ok_polls = Suc ?m, cancel_polls = ?m\<rparr>"
      by (intro completed) simp_all
  qed
qed

theorem handle_cancel_policy_witness:
  "order (get_goal \<lparr>get_goal_id = [], get_goal = \<lparr>order = 4\<rparr>\<rparr>) < 10
   \<and> handle_cancel \<lparr>get_goal_id = [], get_goal = \<lparr>order = 4\<rparr>\<rparr> = CancelResponse_REJECT
   \<and> request_cancel \<lparr>get_goal_id = [], get_goal = \<lparr>order = 4\<rparr>\<rparr> False =
       (CancelResponse_REJECT, False)
   \<and> compute (undisturbed\<lparr>is_canceling :=
         flag_at \<lparr>get_goal_id = [], get_goal = \<lparr>order = 4\<rparr>\<rparr> (\<lambda>n. True)\<rparr>)
       \<lparr>get_goal_id = [], get_goal = \<lparr>order = 4\<rparr>\<rparr> =
       Inr \<lparr>sequence = [0, 1, 1, 2, 3],
            calls = [Publish_feedback [0, 1, 1], Publish_feedback [0, 1, 1, 2],
                     Publish_feedback [0, 1, 1, 2, 3], Succeed [0, 1, 1, 2, 3]],
            ok_polls = 4, cancel_polls = 3\<rparr>
   \<and> 10 \<le> order (get_goal \<lparr>get_goal_id = [], get_goal = \<lparr>order = 10\<rparr>\<rparr>)
   \<and> order (get_goal \<lparr>get_goal_id = [], get_goal = \<lparr>order = 10\<rparr>\<rparr>) \<le> 20
   \<and> request_cancel \<lparr>get_goal_id = [], get_goal = \<lparr>order = 10\<rparr>\<rparr> False =
       (CancelResponse_ACCEPT, True)
   \<and> compute (undisturbed\<lparr>is_canceling :=
         flag_at \<lparr>get_goal_id = [], get_goal = \<lparr>order = 10\<rparr>\<rparr> (\<lambda>n. 2 \<le> n)\<rparr>)
       \<lparr>get_goal_id = [], get_goal = \<lparr>order = 10\<rparr>\<rparr> =
       Inr \<lparr>sequence = [0, 1, 1, 2],
            calls = [Publish_feedback [0, 1, 1], Publish_feedback [0, 1, 1, 2],
                     Canceled [0, 1, 1, 2]],
            ok_polls = 3, cancel_polls = 3\<rparr>
   \<and> flag_at \<lparr>get_goal_id = [], get_goal = \<lparr>order = 10\<rparr>\<rparr> (\<lambda>n. 9 \<le> n) 9
   \<and> compute (undisturbed\<lparr>is_canceling :=
         flag_at \<lparr>get_goal_id = [], get_goal = \<lparr>order = 10\<rparr>\<rparr> (\<lambda>n. 9 \<le> n)\<rparr>)
       \<lparr>get_goal_id = [], get_goal = \<lparr>order = 10\<rparr>\<rparr> =
       Inr \<lparr>sequence = [0, 1, 1, 2, 3, 5, 8, 13, 21, 34, 55],
            calls = [Publish_feedback [0, 1, 1], Publish_feedback [0, 1, 1, 2],
                     Publish_feedback [0, 1, 1, 2, 3], Publish_feedback [0, 1, 1, 2, 3, 5],
                     Publish_feedback [0, 1, 1, 2, 3, 5, 8],
                     Publish_feedback [0, 1, 1, 2, 3, 5, 8, 13],
                     Publish_feedback [0, 1, 1, 2, 3, 5, 8, 13, 21],
                     Publish_feedback [0, 1, 1, 2, 3, 5, 8, 13, 21, 34],
                     Publish_feedback [0, 1, 1, 2, 3, 5, 8, 13, 21, 34, 55],
                     Succeed [0, 1, 1, 2, 3, 5, 8, 13, 21, 34, 55]],
            ok_polls = 10, cancel_polls = 9\<rparr>"
proof -
  let ?h4 = "\<lparr>get_goal_id = [], get_goal = \<lparr>order = 4\<rparr>\<rparr>"
  let ?h10 = "\<lparr>get_goal_id = [], get_goal = \<lparr>order = 10\<rparr>\<rparr>"
  have live: "\<forall>n. ok undisturbed n" by (simp add: undisturbed_def)
  have lt: "order (get_goal ?h4) < 10" and nz: "order (get_goal ?h4) \<noteq> 0" by simp_all
  have ge: "10 \<le> order (get_goal ?h10)" "order (get_goal ?h10) \<le> 20" by simp_all
  have early: "\<forall>n<2. \<not> 2 \<le> (n::nat)" "(2::nat) \<le> 2" "int (Suc 2) < order (get_goal ?h10)"
    by simp_all
  have late: "\<forall>n<nat (order (get_goal ?h10) - 1). \<not> 9 \<le> n" by simp
  have f: "flag_at ?h10 (\<lambda>n. 9 \<le> n) 9" by code_simp
  have v4: "\<lparr>sequence = sequence_after (nat (order (get_goal ?h4) - 1)),
             calls = map (\<lambda>i. Publish_feedback (sequence_after i))
                       [1..<Suc (nat (order (get_goal ?h4) - 1))]
                     @ [Succeed (sequence_after (nat (order (get_goal ?h4) - 1)))],
             ok_polls = Suc (nat (order (get_goal ?h4) - 1)),
             cancel_polls = nat (order (get_goal ?h4) - 1)\<rparr> =
        \<lparr>sequence = [0, 1, 1, 2, 3],
            calls = [Publish_feedback [0, 1, 1], Publish_feedback [0, 1, 1, 2],
                     Publish_feedback [0, 1, 1, 2, 3], Succeed [0, 1, 1, 2, 3]],
            ok_polls = 4, cancel_polls = 3\<rparr>"
    by code_simp
  have v2: "\<lparr>sequence = sequence_after 2,
             calls = map (\<lambda>i. Publish_feedback (sequence_after i)) [1..<Suc 2]
                     @ [Canceled (sequence_after 2)],
             ok_polls = Suc 2, cancel_polls = Suc 2\<rparr> =
        \<lparr>sequence = [0, 1, 1, 2],
            calls = [Publish_feedback [0, 1, 1], Publish_feedback [0, 1, 1, 2],
                     Canceled [0, 1, 1, 2]],
            ok_polls = 3, cancel_polls = 3\<rparr>"
    by code_simp
  have v10: "\<lparr>sequence = sequence_after (nat (order (get_goal ?h10) - 1)),
             calls = map (\<lambda>i. Publish_feedback (sequence_after i))
                       [1..<Suc (nat (order (get_goal ?h10) - 1))]
                     @ [Succeed (sequence_after (nat (order (get_goal ?h10) - 1)))],
             ok_polls = Suc (nat (order (get_goal ?h10) - 1)),
             cancel_polls = nat (order (get_goal ?h10) - 1)\<rparr> =
        \<lparr>sequence = [0, 1, 1, 2, 3, 5, 8, 13, 21, 34, 55],
            calls = [Publish_feedback [0, 1, 1], Publish_feedback [0, 1, 1, 2],
                     Publish_feedback [0, 1, 1, 2, 3], Publish_feedback [0, 1, 1, 2, 3, 5],
                     Publish_feedback [0, 1, 1, 2, 3, 5, 8],
                     Publish_feedback [0, 1, 1, 2, 3, 5, 8, 13],
                     Publish_feedback [0, 1, 1, 2, 3, 5, 8, 13, 21],
                     Publish_feedback [0, 1, 1, 2, 3, 5, 8, 13, 21, 34],
                     Publish_feedback [0, 1, 1, 2, 3, 5, 8, 13, 21, 34, 55],
                     Succeed [0, 1, 1, 2, 3, 5, 8, 13, 21, 34, 55]],
            ok_polls = 10, cancel_polls = 9\<rparr>"
    by code_simp
  from handle_cancel_policy [of ?h4 False "\<lambda>n. True" undisturbed] lt nz live
  have a: "handle_cancel ?h4 = CancelResponse_REJECT"
    "request_cancel ?h4 False = (CancelResponse_REJECT, False)"
    "compute (undisturbed\<lparr>is_canceling := flag_at ?h4 (\<lambda>n. True)\<rparr>) ?h4 =
       Inr \<lparr>sequence = sequence_after (nat (order (get_goal ?h4) - 1)),
             calls = map (\<lambda>i. Publish_feedback (sequence_after i))
                       [1..<Suc (nat (order (get_goal ?h4) - 1))]
                     @ [Succeed (sequence_after (nat (order (get_goal ?h4) - 1)))],
             ok_polls = Suc (nat (order (get_goal ?h4) - 1)),
             cancel_polls = nat (order (get_goal ?h4) - 1)\<rparr>"
    by blast+
  from handle_cancel_policy [of ?h10 False "\<lambda>n. 2 \<le> n" undisturbed 2] ge live early
  have b: "request_cancel ?h10 False = (CancelResponse_ACCEPT, True)"
    "compute (undisturbed\<lparr>is_canceling := flag_at ?h10 (\<lambda>n. 2 \<le> n)\<rparr>) ?h10 =
       Inr \<lparr>sequence = sequence_after 2,
             calls = map (\<lambda>i. Publish_feedback (sequence_after i)) [1..<Suc 2]
                     @ [Canceled (sequence_after 2)],
             ok_polls = Suc 2, cancel_polls = Suc 2\<rparr>"
    by blast+
  from handle_cancel_policy [of ?h10 False "\<lambda>n. 9 \<le> n" undisturbed] ge live late
  have c: "compute (undisturbed\<lparr>is_canceling := flag_at ?h10 (\<lambda>n. 9 \<le> n)\<rparr>) ?h10 =
       Inr \<lparr>sequence = sequence_after (nat (order (get_goal ?h10) - 1)),
             calls = map (\<lambda>i. Publish_feedback (sequence_after i))
                       [1..<Suc (nat (order (get_goal ?h10) - 1))]
                     @ [Succeed (sequence_after (nat (order (get_goal ?h10) - 1)))],
             ok_polls = Suc (nat (order (get_goal ?h10) - 1)),
             cancel_polls = nat (order (get_goal ?h10) - 1)\<rparr>"
    by blast
  from lt a(1,2) a(3) [unfolded v4] ge b(1) b(2) [unfolded v2] f c [unfolded v10]
  show ?thesis by (intro conjI)
qed

text \<open>
  Claim C6. For every admitted goal (order at most 20) and whatever the surroundings
  answer, the worker returns having made at most one terminal call (\<open>succeed\<close>,
  \<open>canceled\<close> or \<open>abort\<close>), and a terminal call is the last call of the run: no
  feedback and no second terminal call comes after it.
\<close>
theorem terminal_call_unique_and_last:
  assumes "order (get_goal h) \<le> 20"
  shows "\<exists>w. compute e h = Inr w
           \<and> length (filter terminal (calls w)) \<le> 1
           \<and> (\<forall>j<length (calls w). terminal (calls w ! j) \<longrightarrow> Suc j = length (calls w))"
proof -
  have "\<exists>w m ts. compute e h = Inr w
          \<and> calls w = map (\<lambda>j. Publish_feedback (sequence_after j)) [1..<Suc m] @ ts
          \<and> length ts \<le> 1"
    using assms
  proof (cases rule: compute_outcome [where h = h and e = e])
    case aborted
    then have "compute e h = Inr (worker_init\<lparr>calls := [Abort []]\<rparr>)
       \<and> calls (worker_init\<lparr>calls := [Abort []]\<rparr>) =
           map (\<lambda>j. Publish_feedback (sequence_after j)) [1..<Suc 0] @ [Abort []]
       \<and> length [Abort []] \<le> 1"
      by simp
    then show ?thesis by blast
  next
    case (succeeded m)
    then have "calls ((at_step m)\<lparr>calls := calls (at_step m) @ [Succeed (sequence_after m)],
                ok_polls := Suc m\<rparr>) =
        map (\<lambda>j. Publish_feedback (sequence_after j)) [1..<Suc m] @ [Succeed (sequence_after m)]
       \<and> length [Succeed (sequence_after m)] \<le> 1"
      by simp
    with succeeded(2) show ?thesis by blast
  next
    case (canceled m)
    then have "calls ((at_step m)\<lparr>calls := calls (at_step m) @ [Canceled (sequence_after m)],
                ok_polls := Suc m, cancel_polls := Suc m\<rparr>) =
        map (\<lambda>j. Publish_feedback (sequence_after j)) [1..<Suc m] @ [Canceled (sequence_after m)]
       \<and> length [Canceled (sequence_after m)] \<le> 1"
      by simp
    with canceled(2) show ?thesis by blast
  next
    case (abandoned_after m)
    have "calls ((at_step m)\<lparr>ok_polls := Suc m\<rparr>) =
        map (\<lambda>j. Publish_feedback (sequence_after j)) [1..<Suc m] @ []
       \<and> length ([] :: call list) \<le> 1"
      by simp
    with abandoned_after(2) show ?thesis by blast
  next
    case (abandoned_inside m)
    have "calls ((at_step m)\<lparr>ok_polls := Suc (Suc m)\<rparr>) =
        map (\<lambda>j. Publish_feedback (sequence_after j)) [1..<Suc m] @ []
       \<and> length ([] :: call list) \<le> 1"
      by simp
    with abandoned_inside(3) show ?thesis by blast
  next
    case (resumed m)
    then have "calls ((at_step m)\<lparr>calls := calls (at_step m) @ [Succeed (sequence_after m)],
                ok_polls := Suc (Suc m)\<rparr>) =
        map (\<lambda>j. Publish_feedback (sequence_after j)) [1..<Suc m] @ [Succeed (sequence_after m)]
       \<and> length [Succeed (sequence_after m)] \<le> 1"
      by simp
    with resumed(3) show ?thesis by blast
  qed
  then obtain w m ts where w: "compute e h = Inr w"
      "calls w = map (\<lambda>j. Publish_feedback (sequence_after j)) [1..<Suc m] @ ts"
      "length ts \<le> 1"
    by blast
  have "length (filter terminal (calls w)) \<le> 1
      \<and> (\<forall>j<length (calls w). terminal (calls w ! j) \<longrightarrow> Suc j = length (calls w))"
    unfolding w(2) by (rule terminal_last [OF feedback_not_terminal w(3)])
  with w(1) show ?thesis by blast
qed

theorem terminal_call_unique_and_last_witness:
  "order (get_goal \<lparr>get_goal_id = [], get_goal = \<lparr>order = 12\<rparr>\<rparr>) \<le> 20
   \<and> (\<exists>w. compute (undisturbed\<lparr>is_canceling := (\<lambda>n. 2 \<le> n)\<rparr>)
             \<lparr>get_goal_id = [], get_goal = \<lparr>order = 12\<rparr>\<rparr> = Inr w
         \<and> calls w = [Publish_feedback [0, 1, 1], Publish_feedback [0, 1, 1, 2],
                      Canceled [0, 1, 1, 2]]
         \<and> length (filter terminal (calls w)) \<le> 1
         \<and> (\<forall>j<length (calls w). terminal (calls w ! j) \<longrightarrow> Suc j = length (calls w)))"
proof -
  let ?e = "undisturbed\<lparr>is_canceling := (\<lambda>n. 2 \<le> n)\<rparr>"
  let ?h = "\<lparr>get_goal_id = [], get_goal = \<lparr>order = 12\<rparr>\<rparr>"
  have v: "compute ?e ?h =
     Inr \<lparr>sequence = [0, 1, 1, 2],
          calls = [Publish_feedback [0, 1, 1], Publish_feedback [0, 1, 1, 2],
                   Canceled [0, 1, 1, 2]],
          ok_polls = 3, cancel_polls = 3\<rparr>"
    by code_simp
  from terminal_call_unique_and_last [of ?h ?e]
  show ?thesis
    unfolding v by simp
qed

text \<open>
  Claim C7. For order 0 the worker calls \<open>abort\<close> with the default, empty result and
  nothing else: no feedback is published and neither question is asked. This holds in
  every environment, so ABORTED is the only terminal outcome of order 0.
\<close>
theorem compute_order_0_aborts:
  assumes "order (get_goal h) = 0"
  shows "compute e h =
           Inr \<lparr>sequence = [], calls = [Abort []], ok_polls = 0, cancel_polls = 0\<rparr>
       \<and> observed e h = Some [Abort []]"
  using assms by (simp add: observed_def compute_def worker_init_def)

theorem compute_order_0_aborts_witness:
  "order (get_goal \<lparr>get_goal_id = [], get_goal = \<lparr>order = 0\<rparr>\<rparr>) = 0
   \<and> observed undisturbed \<lparr>get_goal_id = [], get_goal = \<lparr>order = 0\<rparr>\<rparr> = Some [Abort []]"
  using compute_order_0_aborts [of "\<lparr>get_goal_id = [], get_goal = \<lparr>order = 0\<rparr>\<rparr>" undisturbed]
  by simp

text \<open>
  Claim C8. Order 1 is admitted, the loop makes no iteration (\<open>is_canceling\<close> is never
  asked), and with the middleware up the worker calls \<open>succeed\<close> with \<open>[0, 1]\<close> and
  publishes no feedback.
\<close>
theorem compute_order_1_succeeds:
  assumes "order (get_goal h) = 1" "ok e 0"
  shows "handle_goal (get_goal_id h) (get_goal h) = ACCEPT_AND_EXECUTE
    \<and> compute e h =
        Inr \<lparr>sequence = [0, 1], calls = [Succeed [0, 1]], ok_polls = 1, cancel_polls = 0\<rparr>"
proof -
  have "compute e h =
      Inr ((at_step 0)\<lparr>calls := calls (at_step 0) @ [Succeed (sequence_after 0)],
                  ok_polls := Suc 0\<rparr>)"
    using assms by (intro compute_completes) simp_all
  then show ?thesis
    using assms(1) by (simp add: at_step_def handle_goal_def)
qed

theorem compute_order_1_succeeds_witness:
  "order (get_goal \<lparr>get_goal_id = [], get_goal = \<lparr>order = 1\<rparr>\<rparr>) = 1 \<and> ok undisturbed 0
   \<and> compute undisturbed \<lparr>get_goal_id = [], get_goal = \<lparr>order = 1\<rparr>\<rparr> =
        Inr \<lparr>sequence = [0, 1], calls = [Succeed [0, 1]], ok_polls = 1, cancel_polls = 0\<rparr>"
  using compute_order_1_succeeds [of "\<lparr>get_goal_id = [], get_goal = \<lparr>order = 1\<rparr>\<rparr>" undisturbed]
  by (simp add: undisturbed_def)

text \<open>
  Claim C9. For every admitted goal, when the middleware stays down once it is down: the
  worker returns without a terminal call exactly when one of its \<open>rclcpp::ok()\<close>
  questions was answered false. So a false answer always makes the worker give the goal
  up silently, and nothing else lets an admitted goal end without a terminal call.
\<close>
theorem shutdown_abandons_silently:
  assumes "order (get_goal h) \<le> 20" "stays_down e"
  shows "\<exists>w. compute e h = Inr w
           \<and> ((\<exists>n<ok_polls w. \<not> ok e n) \<longleftrightarrow> (\<forall>c\<in>set (calls w). \<not> terminal c))"
  using assms(1)
proof (cases rule: compute_outcome [where h = h and e = e])
  case aborted
  then show ?thesis by (simp add: worker_init_def)
next
  case (succeeded m)
  then show ?thesis by (auto simp: less_Suc_eq_le)
next
  case (canceled m)
  then show ?thesis by (auto simp: less_Suc_eq_le)
next
  case (abandoned_after m)
  then show ?thesis by auto
next
  case (abandoned_inside m)
  then show ?thesis by auto
next
  case (resumed m)
  with assms(2) have False
    unfolding stays_down_def by (meson le_SucI order_refl)
  then show ?thesis ..
qed

theorem shutdown_abandons_silently_witness:
  "order (get_goal \<lparr>get_goal_id = [], get_goal = \<lparr>order = 12\<rparr>\<rparr>) \<le> 20
   \<and> stays_down (undisturbed\<lparr>ok := (\<lambda>n. n < 2)\<rparr>)
   \<and> (\<exists>w. compute (undisturbed\<lparr>ok := (\<lambda>n. n < 2)\<rparr>)
             \<lparr>get_goal_id = [], get_goal = \<lparr>order = 12\<rparr>\<rparr> = Inr w
         \<and> calls w = [Publish_feedback [0, 1, 1], Publish_feedback [0, 1, 1, 2]]
         \<and> ok_polls w = 4
         \<and> ((\<exists>n<ok_polls w. \<not> ok (undisturbed\<lparr>ok := (\<lambda>n. n < 2)\<rparr>) n)
              \<longleftrightarrow> (\<forall>c\<in>set (calls w). \<not> terminal c)))"
proof -
  let ?e = "undisturbed\<lparr>ok := (\<lambda>n. n < 2)\<rparr>"
  let ?h = "\<lparr>get_goal_id = [], get_goal = \<lparr>order = 12\<rparr>\<rparr>"
  have d: "stays_down ?e" by (simp add: stays_down_def)
  have v: "compute ?e ?h =
     Inr \<lparr>sequence = [0, 1, 1, 2],
          calls = [Publish_feedback [0, 1, 1], Publish_feedback [0, 1, 1, 2]],
          ok_polls = 4, cancel_polls = 2\<rparr>"
    by code_simp
  from shutdown_abandons_silently [of ?h ?e] d
  show ?thesis
    unfolding v by simp
qed

text \<open>
  Without that assumption the second check could pass after the first failed: the worker
  would then call \<open>succeed\<close> with the sequence built so far.
\<close>

lemma compute_resumed_example:
  "compute (undisturbed\<lparr>ok := (\<lambda>n. n \<noteq> 2)\<rparr>) \<lparr>get_goal_id = [], get_goal = \<lparr>order = 12\<rparr>\<rparr> =
     Inr \<lparr>sequence = [0, 1, 1, 2],
          calls = [Publish_feedback [0, 1, 1], Publish_feedback [0, 1, 1, 2], Succeed [0, 1, 1, 2]],
          ok_polls = 4, cancel_polls = 2\<rparr>"
  by code_simp

text \<open>
  Claim C10. A negative order is admitted and not aborted; the loop makes no iteration,
  and with the middleware up the worker calls \<open>succeed\<close> with \<open>[0, 1]\<close> and publishes
  no feedback: the run is the run of order 1.
\<close>
theorem negative_order_like_order_1:
  assumes "order (get_goal h) < 0" "ok e 0"
  shows "handle_goal (get_goal_id h) (get_goal h) = ACCEPT_AND_EXECUTE
    \<and> compute e h =
        Inr \<lparr>sequence = [0, 1], calls = [Succeed [0, 1]], ok_polls = 1, cancel_polls = 0\<rparr>
    \<and> compute e h = compute e (h\<lparr>get_goal := \<lparr>order = 1\<rparr>\<rparr>)"
proof -
  have "compute e h =
      Inr ((at_step 0)\<lparr>calls := calls (at_step 0) @ [Succeed (sequence_after 0)],
                  ok_polls := Suc 0\<rparr>)"
    using assms by (intro compute_completes) simp_all
  moreover have "compute e (h\<lparr>get_goal := \<lparr>order = 1\<rparr>\<rparr>) =
      Inr ((at_step 0)\<lparr>calls := calls (at_step 0) @ [Succeed (sequence_after 0)],
                  ok_polls := Suc 0\<rparr>)"
    using assms by (intro compute_completes) simp_all
  ultimately show ?thesis
    using assms(1) by (simp add: at_step_def handle_goal_def)
qed

theorem negative_order_like_order_1_witness:
  "order (get_goal \<lparr>get_goal_id = [], get_goal = \<lparr>order = - 3\<rparr>\<rparr>) < 0 \<and> ok undisturbed 0
   \<and> handle_goal [] \<lparr>order = - 3\<rparr> = ACCEPT_AND_EXECUTE
   \<and> compute undisturbed \<lparr>get_goal_id = [], get_goal = \<lparr>order = - 3\<rparr>\<rparr> =
        Inr \<lparr>sequence = [0, 1], calls = [Succeed [0, 1]], ok_polls = 1, cancel_polls = 0\<rparr>"
  using negative_order_like_order_1 [of "\<lparr>get_goal_id = [], get_goal = \<lparr>order = - 3\<rparr>\<rparr>" undisturbed]
  by (simp add: undisturbed_def)

end
